theory Spec2Isabelle
  imports Main "HOL-Library.Word"
begin

section \<open>RollingList (common/rolling_list.go)\<close>

text \<open>
  Go's \<open>int\<close> is a 64-bit two's complement integer. The fields \<open>size\<close> and \<open>tot\<close>
  and the index argument are carried as integers, \<open>is_int64\<close> says that a value is one
  a Go \<open>int\<close> can hold, and \<open>wrap64\<close> is the value that 64-bit arithmetic gives for
  an exact result. The product \<open>2 * size\<close> is wrapped wherever the code computes it,
  since a caller can pass a size for which it overflows. The counter \<open>tot\<close> is not
  wrapped: it grows by one per append, so the model describes runs of fewer than
  \<open>2 ^ 63\<close> appends, and on those \<open>0 \<le> tot - len(items) \<le> tot\<close>, so that the two
  subtractions of \<open>GetItem\<close> do not overflow for any 64-bit index.
  The element type \<open>interface{}\<close> is the type parameter \<open>'a\<close>. A run-time panic is a
  value of \<open>go_panic\<close>; the two sentinel errors are the values of \<open>rl_error\<close>.
\<close>

definition is_int64 :: "int \<Rightarrow> bool" where
  "is_int64 x = (- (2 ^ 63) \<le> x \<and> x < 2 ^ 63)"

definition wrap64 :: "int \<Rightarrow> int" where
  "wrap64 x = (x + 2 ^ 63) mod 2 ^ 64 - 2 ^ 63"

datatype rl_error = ErrKeyNotFound | ErrTooLate

datatype go_panic = MakesliceCapOutOfRange | SliceBoundsOutOfRange | CloseOfClosedChannel

record 'a RollingList =
  size_rl :: int
  tot :: int
  items :: "'a list"

text \<open>
  \<open>make([]interface{}, 0, 2*size)\<close> panics when the capacity, as the 64-bit product
  gives it, is negative. The run-time system also refuses a capacity beyond what it can
  allocate; that limit belongs to the platform and is left out, so the model constructs
  some lists that the code refuses, and none that behave differently once they exist.
\<close>

definition NewRollingList :: "int \<Rightarrow> go_panic + 'a RollingList" where
  "NewRollingList sz =
     (if wrap64 (2 * sz) < 0 then Inl MakesliceCapOutOfRange
      else Inr \<lparr>size_rl = sz, tot = 0, items = []\<rparr>)"

definition Get :: "'a RollingList \<Rightarrow> 'a list \<times> int" where
  "Get r = (items r, tot r)"

definition GetItem :: "'a RollingList \<Rightarrow> int \<Rightarrow> rl_error + 'a" where
  "GetItem r index =
     (let n = int (length (items r));
          oldestCached = tot r - n
      in if index < oldestCached then Inl ErrTooLate
         else let findex = index - oldestCached
              in if findex \<ge> n then Inl ErrKeyNotFound
                 else Inr (items r ! nat findex))"

text \<open>
  \<open>Roll\<close> first allocates with \<open>make([]interface{}, 0, 2*r.size)\<close>, which panics
  on a negative capacity, and then slices: \<open>r.items[r.size:]\<close> panics unless
  \<open>0 \<le> size \<le> len(items)\<close>. Otherwise the new buffer is the old one without its
  first \<open>size\<close> elements.
\<close>

definition Roll :: "'a RollingList \<Rightarrow> go_panic + 'a RollingList" where
  "Roll r =
     (if wrap64 (2 * size_rl r) < 0 then Inl MakesliceCapOutOfRange
      else if size_rl r < 0 \<or> int (length (items r)) < size_rl r
           then Inl SliceBoundsOutOfRange
      else Inr (r\<lparr>items := drop (nat (size_rl r)) (items r)\<rparr>))"

text \<open>
  The first statement of \<open>Add\<close>, \<open>if len(r.items) >= 2*r.size { r.Roll() }\<close>. The
  flag is a ghost value: it tells whether \<open>Roll\<close> was called (and returned).
\<close>

definition Add_roll :: "'a RollingList \<Rightarrow> go_panic + (bool \<times> 'a RollingList)" where
  "Add_roll r =
     (if int (length (items r)) \<ge> wrap64 (2 * size_rl r)
      then (case Roll r of Inl p \<Rightarrow> Inl p | Inr r' \<Rightarrow> Inr (True, r'))
      else Inr (False, r))"

definition Add :: "'a RollingList \<Rightarrow> 'a \<Rightarrow> go_panic + 'a RollingList" where
  "Add r item =
     (case Add_roll r of
        Inl p \<Rightarrow> Inl p
      | Inr (rolled, r') \<Rightarrow> Inr (r'\<lparr>items := items r' @ [item], tot := tot r' + 1\<rparr>))"

text \<open>A client that only appends: the calls \<open>Add(x1); Add(x2); ...\<close> in order.\<close>

fun add_seq :: "'a list \<Rightarrow> 'a RollingList \<Rightarrow> go_panic + 'a RollingList" where
  "add_seq [] r = Inr r"
| "add_seq (x # xs) r = (case Add r x of Inl p \<Rightarrow> Inl p | Inr r' \<Rightarrow> add_seq xs r')"

text \<open>Ghost counter: how many of the calls of \<open>add_seq\<close> compacted the buffer.\<close>

fun roll_count :: "'a list \<Rightarrow> 'a RollingList \<Rightarrow> nat" where
  "roll_count [] r = 0"
| "roll_count (x # xs) r =
     (case Add_roll r of
        Inl p \<Rightarrow> 0
      | Inr (rolled, r') \<Rightarrow>
          (if rolled then 1 else 0) +
          (case Add r x of Inl p \<Rightarrow> 0 | Inr r'' \<Rightarrow> roll_count xs r''))"

text \<open>
  The invariant of an append-only list against the stream \<open>h\<close> appended so far:
  \<open>tot\<close> is the stream's length and the buffer is the stream's suffix of the
  buffer's length.
\<close>

definition rl_inv :: "'a RollingList \<Rightarrow> 'a list \<Rightarrow> bool" where
  "rl_inv r h =
     (tot r = int (length h) \<and>
      length (items r) \<le> length h \<and>
      items r = drop (length h - length (items r)) h)"

text \<open>The sizes for which \<open>2 * size\<close> does not overflow.\<close>

definition rl_sized :: "'a RollingList \<Rightarrow> bool" where
  "rl_sized r = (0 \<le> size_rl r \<and> size_rl r < 2 ^ 62)"

text \<open>For a positive window the buffer never holds more than \<open>2 * size\<close> items.\<close>

definition rl_bounded :: "'a RollingList \<Rightarrow> bool" where
  "rl_bounded r = (1 \<le> size_rl r \<and> int (length (items r)) \<le> 2 * size_rl r)"


section \<open>NetworkTransport (net/net_transport.go)\<close>

text \<open>
  The transport is modelled sequentially: each method runs to completion on an explicit
  state, as the two mutexes make \<open>Close\<close>, \<open>getPooledConn\<close> and \<open>returnConn\<close> do.
  Everything the program cannot decide by itself (whether a dial succeeds, whether a
  write or a decode fails, which case of a \<open>select\<close> fires) is an input of the model,
  collected in an environment record for one call. Every such operation returns in the
  model; how long it blocks is not represented. The logger only prints and is left
  out, and so are the type byte and the payload of an outbound request, which no branch
  of the outbound path inspects.
\<close>

datatype net_error =
    ErrTransportShutdown
  | ErrPipelineShutdown
  | UnknownRpcType "8 word"   \<comment> \<open>\<open>fmt.Errorf("unknown rpc type %d", rpcType)\<close>\<close>
  | Errorf string             \<comment> \<open>\<open>fmt.Errorf(rpcError)\<close>, the string being the format\<close>
  | IOError string            \<comment> \<open>an error of the stream layer or of bufio\<close>
  | EOF                       \<comment> \<open>\<open>io.EOF\<close>: the stream has ended\<close>
  | GobTypeError              \<comment> \<open>gob's error for a value that does not fit the destination\<close>

definition rpcSync :: "8 word" where
  "rpcSync = 0"

text \<open>
  A \<open>netConn\<close> is its target and the identity of the \<open>net.Conn\<close> it wraps; reader,
  writer, encoder and decoder are views of that connection.
\<close>

record netConn =
  target :: string
  conn :: nat

text \<open>
  The fields of the struct that the modelled methods read or write, and three ghost
  fields that record what the transport did to the outside world: the number of calls
  of \<open>stream.Close()\<close>, the connections on which \<open>Release()\<close> was called and the
  connections on which a deadline was set, each in call order. \<open>shutdownCh\<close> is
  \<open>True\<close> once the channel is closed.
\<close>

record NetworkTransport =
  connPool :: "string \<rightharpoonup> netConn list"
  maxPool :: int
  shutdown :: bool
  shutdownCh :: bool
  timeout :: int
  stream_closes :: nat
  released :: "netConn list"
  deadlines :: "netConn list"

definition NewNetworkTransport :: "int \<Rightarrow> int \<Rightarrow> NetworkTransport" where
  "NewNetworkTransport mp tmo =
     \<lparr>connPool = Map.empty, maxPool = mp, shutdown = False, shutdownCh = False,
      timeout = tmo, stream_closes = 0, released = [], deadlines = []\<rparr>"

text \<open>
  \<open>Close\<close> returns the nil error. Closing a channel that is already closed panics, so
  the model keeps that branch.
\<close>

definition Close :: "NetworkTransport \<Rightarrow> go_panic + (net_error option \<times> NetworkTransport)" where
  "Close n =
     (if \<not> shutdown n then
        (if shutdownCh n then Inl CloseOfClosedChannel
         else Inr (None, n\<lparr>shutdownCh := True,
                           stream_closes := Suc (stream_closes n),
                           shutdown := True\<rparr>))
      else Inr (None, n))"

definition IsShutdown :: "NetworkTransport \<Rightarrow> bool" where
  "IsShutdown n = shutdownCh n"

definition getPooledConn :: "string \<Rightarrow> NetworkTransport \<Rightarrow> netConn option \<times> NetworkTransport" where
  "getPooledConn tgt n =
     (case connPool n tgt of
        None \<Rightarrow> (None, n)
      | Some conns \<Rightarrow>
          if length conns = 0 then (None, n)
          else (Some (last conns), n\<lparr>connPool := (connPool n)(tgt \<mapsto> butlast conns)\<rparr>))"

text \<open>The decoder's input: what the peer sends on the connection during the call.\<close>

datatype 'v wire = WString string | WValue 'v | WFail net_error

text \<open>
  The gob stream is a sequence of typed values. \<open>Decode\<close> into a string variable
  succeeds on a string, \<open>Decode\<close> into the response variable succeeds on a response
  value. A value of the other type is an error of gob, whose text (it names the two
  types) is not modelled; \<open>WFail e\<close> is a read that fails with \<open>e\<close>, a deadline that
  passes for instance; the end of the list is the end of the stream.
\<close>

fun decode_string :: "'v wire list \<Rightarrow> (net_error + string) \<times> 'v wire list" where
  "decode_string [] = (Inl EOF, [])"
| "decode_string (WString s # ws) = (Inr s, ws)"
| "decode_string (WValue v # ws) = (Inl GobTypeError, ws)"
| "decode_string (WFail e # ws) = (Inl e, ws)"

fun decode_value :: "'v wire list \<Rightarrow> (net_error + 'v) \<times> 'v wire list" where
  "decode_value [] = (Inl EOF, [])"
| "decode_value (WValue v # ws) = (Inr v, ws)"
| "decode_value (WString s # ws) = (Inl GobTypeError, ws)"
| "decode_value (WFail e # ws) = (Inl e, ws)"

text \<open>The environment of one outbound call.\<close>

record 'v rpc_env =
  dial :: "net_error + nat"          \<comment> \<open>result of \<open>stream.Dial\<close>\<close>
  write_byte :: "net_error option"   \<comment> \<open>result of \<open>conn.w.WriteByte(rpcType)\<close>\<close>
  encode :: "net_error option"       \<comment> \<open>result of \<open>conn.enc.Encode(args)\<close>\<close>
  flush :: "net_error option"        \<comment> \<open>result of \<open>conn.w.Flush()\<close>\<close>
  incoming :: "'v wire list"

definition getConn ::
  "'v rpc_env \<Rightarrow> string \<Rightarrow> NetworkTransport \<Rightarrow> (net_error + netConn) \<times> NetworkTransport" where
  "getConn env tgt n =
     (case getPooledConn tgt n of
        (Some c, n') \<Rightarrow> (Inr c, n')
      | (None, n') \<Rightarrow>
          (case dial env of
             Inl e \<Rightarrow> (Inl e, n')
           | Inr cn \<Rightarrow> (Inr \<lparr>target = tgt, conn = cn\<rparr>, n')))"

definition Release :: "netConn \<Rightarrow> NetworkTransport \<Rightarrow> NetworkTransport" where
  "Release c n = n\<lparr>released := released n @ [c]\<rparr>"

definition returnConn :: "netConn \<Rightarrow> NetworkTransport \<Rightarrow> NetworkTransport" where
  "returnConn c n =
     (let key = target c;
          conns = (case connPool n key of None \<Rightarrow> [] | Some cs \<Rightarrow> cs)
      in if \<not> IsShutdown n \<and> int (length conns) < maxPool n
         then n\<lparr>connPool := (connPool n)(key \<mapsto> conns @ [c])\<rparr>
         else Release c n)"

definition sendRPC ::
  "'v rpc_env \<Rightarrow> netConn \<Rightarrow> NetworkTransport \<Rightarrow> net_error option \<times> NetworkTransport" where
  "sendRPC env c n =
     (case write_byte env of
        Some e \<Rightarrow> (Some e, Release c n)
      | None \<Rightarrow>
          (case encode env of
             Some e \<Rightarrow> (Some e, Release c n)
           | None \<Rightarrow>
               (case flush env of
                  Some e \<Rightarrow> (Some e, Release c n)
                | None \<Rightarrow> (None, n))))"

text \<open>
  \<open>decodeResponse\<close> returns the flag \<open>canReturn\<close>, the error, and the value stored
  through \<open>resp\<close> when the second decode succeeded.
\<close>

definition decodeResponse ::
  "'v rpc_env \<Rightarrow> netConn \<Rightarrow> NetworkTransport \<Rightarrow>
     bool \<times> net_error option \<times> 'v option \<times> NetworkTransport" where
  "decodeResponse env c n =
     (case decode_string (incoming env) of
        (Inl e, ws) \<Rightarrow> (False, Some e, None, Release c n)
      | (Inr rpcError, ws) \<Rightarrow>
          (case decode_value ws of
             (Inl e, ws') \<Rightarrow> (False, Some e, None, Release c n)
           | (Inr v, ws') \<Rightarrow>
               if rpcError \<noteq> [] then (True, Some (Errorf rpcError), Some v, n)
               else (True, None, Some v, n)))"

definition genericRPC ::
  "'v rpc_env \<Rightarrow> string \<Rightarrow> NetworkTransport \<Rightarrow>
     net_error option \<times> 'v option \<times> NetworkTransport" where
  "genericRPC env tgt n =
     (case getConn env tgt n of
        (Inl e, n1) \<Rightarrow> (Some e, None, n1)
      | (Inr c, n1) \<Rightarrow>
          (let n2 = (if timeout n1 > 0 then n1\<lparr>deadlines := deadlines n1 @ [c]\<rparr> else n1)
           in case sendRPC env c n2 of
                (Some e, n3) \<Rightarrow> (Some e, None, n3)
              | (None, n3) \<Rightarrow>
                  (case decodeResponse env c n3 of
                     (canReturn, err, resp, n4) \<Rightarrow>
                       (err, resp, if canReturn then returnConn c n4 else n4))))"

definition Sync ::
  "'v rpc_env \<Rightarrow> string \<Rightarrow> NetworkTransport \<Rightarrow>
     net_error option \<times> 'v option \<times> NetworkTransport" where
  "Sync env tgt n = genericRPC env tgt n"

text \<open>
  An \<open>RPCResponse\<close> pairs the response value with an optional error; the error is
  represented by the string its \<open>Error()\<close> method returns.
\<close>

record 'v RPCResponse =
  Response :: 'v
  Error :: "string option"

text \<open>
  The environment of one inbound command: the byte and the request read from the
  connection, which case of each \<open>select\<close> fires (\<open>dispatched = False\<close> and
  \<open>reply = None\<close> are the shutdown cases), and the results of the two \<open>Encode\<close>
  calls.
\<close>

record ('q, 'v) cmd_env =
  read_byte :: "net_error + 8 word"
  decode_req :: "net_error + 'q"
  dispatched :: bool
  reply :: "'v RPCResponse option"
  encode_err :: "net_error option"
  encode_resp :: "net_error option"

text \<open>
  \<open>handleCommand\<close> returns its error, the values it has encoded onto the connection,
  in order, and the command it has handed to the consumer, if any.
\<close>

definition handleCommand ::
  "('q, 'v) cmd_env \<Rightarrow> net_error option \<times> 'v wire list \<times> 'q option" where
  "handleCommand env =
     (case read_byte env of
        Inl e \<Rightarrow> (Some e, [], None)
      | Inr rpcType \<Rightarrow>
          if rpcType = rpcSync then
            (case decode_req env of
               Inl e \<Rightarrow> (Some e, [], None)
             | Inr req \<Rightarrow>
                 if \<not> dispatched env then (Some ErrTransportShutdown, [], None)
                 else
                   (case reply env of
                      None \<Rightarrow> (Some ErrTransportShutdown, [], Some req)
                    | Some resp \<Rightarrow>
                        (let respErr = (case Error resp of None \<Rightarrow> [] | Some m \<Rightarrow> m)
                         in case encode_err env of
                              Some e \<Rightarrow> (Some e, [], Some req)
                            | None \<Rightarrow>
                                (case encode_resp env of
                                   Some e \<Rightarrow> (Some e, [WString respErr], Some req)
                                 | None \<Rightarrow>
                                     (None, [WString respErr, WValue (Response resp)],
                                      Some req)))))
          else (Some (UnknownRpcType rpcType), [], None))"

text \<open>
  A round trip is complete when the three steps of \<open>sendRPC\<close> and both decodes of
  \<open>decodeResponse\<close> succeed.
\<close>

definition round_trip_ok :: "'v rpc_env \<Rightarrow> bool" where
  "round_trip_ok env =
     (write_byte env = None \<and> encode env = None \<and> flush env = None \<and>
      \<not> isl (fst (decode_string (incoming env))) \<and>
      \<not> isl (fst (decode_value (snd (decode_string (incoming env))))))"

text \<open>The idle connections of a target; a missing key is the nil slice.\<close>

definition idle :: "NetworkTransport \<Rightarrow> string \<Rightarrow> netConn list" where
  "idle n tgt = (case connPool n tgt of None \<Rightarrow> [] | Some cs \<Rightarrow> cs)"

text \<open>The state in which \<open>genericRPC\<close> holds connection \<open>c\<close>, after the deadline step.\<close>

definition with_deadline :: "netConn \<Rightarrow> NetworkTransport \<Rightarrow> NetworkTransport" where
  "with_deadline c n = (if timeout n > 0 then n\<lparr>deadlines := deadlines n @ [c]\<rparr> else n)"

text \<open>
  The shutdown flag and the shutdown channel change together; every transport that
  \<open>NewNetworkTransport\<close> creates keeps them equal.
\<close>

definition flags_agree :: "NetworkTransport \<Rightarrow> bool" where
  "flags_agree n = (shutdown n = shutdownCh n)"

section \<open>Properties of RollingList\<close>

subsection \<open>The 64-bit product\<close>

lemma wrap64_double:
  assumes "0 \<le> s" "s < 2 ^ 62"
  shows "wrap64 (2 * s) = 2 * s"
proof -
  have "0 \<le> 2 * s + 2 ^ 63" "2 * s + 2 ^ 63 < (2 ^ 64 :: int)" using assms by simp_all
  then have "(2 * s + 2 ^ 63) mod 2 ^ 64 = 2 * s + 2 ^ 63" by (rule mod_pos_pos_trivial)
  then show ?thesis by (simp add: wrap64_def)
qed

lemma wrap64_double_neg:
  assumes "2 ^ 62 \<le> s" "s < 2 ^ 63"
  shows "wrap64 (2 * s) < 0"
proof -
  have "0 \<le> 2 * s + 2 ^ 63 - 2 ^ 64" "2 * s + 2 ^ 63 - 2 ^ 64 < (2 ^ 64 :: int)"
    using assms by simp_all
  then have "(2 * s + 2 ^ 63 - 2 ^ 64) mod 2 ^ 64 = 2 * s + 2 ^ 63 - 2 ^ 64"
    by (rule mod_pos_pos_trivial)
  moreover have "(2 * s + 2 ^ 63 - 2 ^ 64) mod 2 ^ 64 = (2 * s + 2 ^ 63) mod (2 ^ 64 :: int)"
    by (metis minus_mod_self2)
  ultimately have "(2 * s + 2 ^ 63) mod 2 ^ 64 = 2 * s + 2 ^ 63 - (2 ^ 64 :: int)" by simp
  then show ?thesis using assms by (simp add: wrap64_def)
qed

lemma constructed_size:
  assumes "is_int64 S" "0 \<le> S" "\<not> wrap64 (2 * S) < 0"
  shows "S < 2 ^ 62"
proof (rule ccontr)
  assume "\<not> S < 2 ^ 62"
  with assms(1) have "2 ^ 62 \<le> S" "S < 2 ^ 63" by (simp_all add: is_int64_def)
  then have "wrap64 (2 * S) < 0" by (rule wrap64_double_neg)
  with assms(3) show False by simp
qed

subsection \<open>Invariants of an append-only list\<close>

lemma suffix_drop_iff:
  "(length xs \<le> length h \<and> xs = drop (length h - length xs) h) \<longleftrightarrow> (\<exists>pre. h = pre @ xs)"
proof
  assume "length xs \<le> length h \<and> xs = drop (length h - length xs) h"
  then have "h = take (length h - length xs) h @ xs"
    by (metis append_take_drop_id)
  then show "\<exists>pre. h = pre @ xs" ..
next
  assume "\<exists>pre. h = pre @ xs"
  then show "length xs \<le> length h \<and> xs = drop (length h - length xs) h"
    by auto
qed

lemma rl_inv_alt:
  "rl_inv r h \<longleftrightarrow> tot r = int (length h) \<and> (\<exists>pre. h = pre @ items r)"
  unfolding rl_inv_def using suffix_drop_iff [of "items r" h] by blast

lemma Roll_result:
  assumes "Roll r = Inr r'"
  shows "r' = r\<lparr>items := drop (nat (size_rl r)) (items r)\<rparr>"
    and "0 \<le> size_rl r" and "size_rl r \<le> int (length (items r))"
  using assms by (auto simp: Roll_def split: if_splits)

lemma Add_roll_result:
  assumes "Add_roll r = Inr (b, r')"
  shows "tot r' = tot r \<and> size_rl r' = size_rl r \<and> (\<exists>p. items r = p @ items r')"
proof (cases b)
  case False
  with assms have "r' = r" by (auto simp: Add_roll_def split: if_splits sum.splits)
  then show ?thesis by simp
next
  case True
  with assms have "Roll r = Inr r'" by (auto simp: Add_roll_def split: if_splits sum.splits)
  then have r': "r' = r\<lparr>items := drop (nat (size_rl r)) (items r)\<rparr>" by (rule Roll_result)
  have "items r = take (nat (size_rl r)) (items r) @ drop (nat (size_rl r)) (items r)" by simp
  then have "\<exists>p. items r = p @ drop (nat (size_rl r)) (items r)" ..
  with r' show ?thesis by simp
qed

lemma Add_unfold:
  assumes "Add_roll r = Inr (b, r')"
  shows "Add r x = Inr (r'\<lparr>items := items r' @ [x], tot := tot r' + 1\<rparr>)"
  using assms by (simp add: Add_def)

lemma Add_Inr_roll:
  assumes "Add r x = Inr r1"
  obtains b r' where "Add_roll r = Inr (b, r')"
    and "r1 = r'\<lparr>items := items r' @ [x], tot := tot r' + 1\<rparr>"
  using assms by (auto simp: Add_def split: sum.splits prod.splits)

lemma Add_inv:
  assumes "rl_inv r h" and "Add r x = Inr r1"
  shows "rl_inv r1 (h @ [x]) \<and> size_rl r1 = size_rl r"
proof -
  from assms(2) obtain b r' where ar: "Add_roll r = Inr (b, r')"
    and r1: "r1 = r'\<lparr>items := items r' @ [x], tot := tot r' + 1\<rparr>"
    by (rule Add_Inr_roll)
  from Add_roll_result[OF ar] obtain p where
    k: "tot r' = tot r" "size_rl r' = size_rl r" "items r = p @ items r'" by blast
  from assms(1) obtain pre where t: "tot r = int (length h)" and h: "h = pre @ items r"
    unfolding rl_inv_alt by blast
  have "h @ [x] = (pre @ p) @ (items r' @ [x])" using h k(3) by simp
  then have "\<exists>q. h @ [x] = q @ (items r' @ [x])" ..
  then show ?thesis using r1 k t unfolding rl_inv_alt by simp
qed

lemma Add_roll_sized:
  assumes "rl_sized r"
  shows "Add_roll r =
           Inr (2 * size_rl r \<le> int (length (items r)),
                if 2 * size_rl r \<le> int (length (items r))
                then r\<lparr>items := drop (nat (size_rl r)) (items r)\<rparr> else r)"
proof -
  from assms have s: "0 \<le> size_rl r" "size_rl r < 2 ^ 62" by (simp_all add: rl_sized_def)
  then have w: "wrap64 (2 * size_rl r) = 2 * size_rl r" by (rule wrap64_double)
  show ?thesis
  proof (cases "2 * size_rl r \<le> int (length (items r))")
    case False
    then show ?thesis using w by (simp add: Add_roll_def)
  next
    case True
    with s have "size_rl r \<le> int (length (items r))" by linarith
    then have "Roll r = Inr (r\<lparr>items := drop (nat (size_rl r)) (items r)\<rparr>)"
      using s w by (simp add: Roll_def)
    then show ?thesis using True w by (simp add: Add_roll_def)
  qed
qed

lemma Add_sized:
  assumes "rl_sized r"
  shows "\<exists>r1. Add r x = Inr r1 \<and> rl_sized r1"
  using assms Add_unfold[OF Add_roll_sized[OF assms], of x]
  by (auto simp: rl_sized_def)

lemma Add_bounded:
  assumes "rl_sized r" "rl_bounded r" "Add r x = Inr r1"
  shows "rl_bounded r1"
  using assms Add_unfold[OF Add_roll_sized[OF assms(1)], of x]
  by (auto simp: rl_bounded_def rl_sized_def split: if_splits)

lemma add_seq_inv:
  "rl_inv r h \<Longrightarrow> add_seq xs r = Inr r1 \<Longrightarrow> rl_inv r1 (h @ xs) \<and> size_rl r1 = size_rl r"
proof (induction xs arbitrary: r h)
  case Nil
  then show ?case by simp
next
  case (Cons x xs)
  from Cons.prems(2) obtain r2 where a: "Add r x = Inr r2" and b: "add_seq xs r2 = Inr r1"
    by (auto split: sum.splits)
  from Add_inv[OF Cons.prems(1) a] have "rl_inv r2 (h @ [x])" "size_rl r2 = size_rl r"
    by simp_all
  with Cons.IH[OF _ b, of "h @ [x]"] show ?case by simp
qed

lemma add_seq_sized:
  "rl_sized r \<Longrightarrow> \<exists>r1. add_seq xs r = Inr r1 \<and> rl_sized r1"
proof (induction xs arbitrary: r)
  case Nil
  then show ?case by simp
next
  case (Cons x xs)
  from Add_sized[OF Cons.prems, of x] obtain r2 where "Add r x = Inr r2" "rl_sized r2" by blast
  with Cons.IH[of r2] show ?case by simp
qed

lemma add_seq_bounded:
  "rl_sized r \<Longrightarrow> rl_bounded r \<Longrightarrow> add_seq xs r = Inr r1 \<Longrightarrow> rl_bounded r1"
proof (induction xs arbitrary: r)
  case Nil
  then show ?case by simp
next
  case (Cons x xs)
  from Cons.prems(3) obtain r2 where a: "Add r x = Inr r2" and b: "add_seq xs r2 = Inr r1"
    by (auto split: sum.splits)
  from Add_sized[OF Cons.prems(1), of x] a have "rl_sized r2" by simp
  moreover from Add_bounded[OF Cons.prems(1,2) a] have "rl_bounded r2" .
  ultimately show ?case using Cons.IH b by blast
qed

lemma new_list:
  assumes "NewRollingList S = Inr r0"
  shows "r0 = \<lparr>size_rl = S, tot = 0, items = []\<rparr>" and "\<not> wrap64 (2 * S) < 0"
    and "rl_inv r0 []"
  using assms by (auto simp: NewRollingList_def rl_inv_def split: if_splits)

lemma new_sized:
  assumes "NewRollingList S = Inr r0" "is_int64 S" "0 \<le> S"
  shows "rl_sized r0"
proof -
  have "S < 2 ^ 62" by (rule constructed_size[OF assms(2,3) new_list(2)[OF assms(1)]])
  with assms(3) new_list(1)[OF assms(1)] show ?thesis by (simp add: rl_sized_def)
qed

lemma GetItem_window:
  assumes "rl_inv r h" "j < length (items r)"
  shows "GetItem r (tot r - int (length (items r)) + int j) = Inr (h ! (length h - length (items r) + j))"
proof -
  from assms(1) have eq: "items r = drop (length h - length (items r)) h"
    and le: "length (items r) \<le> length h"
    by (simp_all add: rl_inv_def)
  have "items r ! j = drop (length h - length (items r)) h ! j" using eq by simp
  also have "\<dots> = h ! (length h - length (items r) + j)"
    using le assms(2) by simp
  finally show ?thesis using assms(2) by (simp add: GetItem_def Let_def)
qed

text \<open>
  Claim C1. For every state of the list and every index, \<open>GetItem\<close> returns the
  "too late" error exactly when the index is below \<open>oldestCached = tot - len(items)\<close>,
  the "not found" error exactly when \<open>index - oldestCached \<ge> len(items)\<close>, and in
  the remaining case the buffered item at offset \<open>index - oldestCached\<close>, which lies
  inside the buffer.
\<close>

theorem GetItem_cases:
  "(GetItem r i = Inl ErrTooLate \<longleftrightarrow> i < tot r - int (length (items r))) \<and>
   (GetItem r i = Inl ErrKeyNotFound \<longleftrightarrow>
      i - (tot r - int (length (items r))) \<ge> int (length (items r))) \<and>
   (\<not> i < tot r - int (length (items r)) \<and>
    \<not> i - (tot r - int (length (items r))) \<ge> int (length (items r)) \<longrightarrow>
      nat (i - (tot r - int (length (items r)))) < length (items r) \<and>
      GetItem r i = Inr (items r ! nat (i - (tot r - int (length (items r))))))"
  by (auto simp: GetItem_def Let_def)

theorem GetItem_cases_witness:
  "\<not> (5::int) < 7 - int (length [3, 4, 5, 6::nat]) \<and>
   \<not> (5::int) - (7 - int (length [3, 4, 5, 6::nat])) \<ge> int (length [3, 4, 5, 6::nat]) \<and>
   GetItem \<lparr>size_rl = 3, tot = 7, items = [3, 4, 5, 6::nat]\<rparr> 5 = Inr 5 \<and>
   GetItem \<lparr>size_rl = 3, tot = 7, items = [3, 4, 5, 6::nat]\<rparr> 2 = Inl ErrTooLate \<and>
   GetItem \<lparr>size_rl = 3, tot = 7, items = [3, 4, 5, 6::nat]\<rparr> 9 = Inl ErrKeyNotFound"
  using GetItem_cases [of "\<lparr>size_rl = 3, tot = 7, items = [3, 4, 5, 6::nat]\<rparr>" 5]
    GetItem_cases [of "\<lparr>size_rl = 3, tot = 7, items = [3, 4, 5, 6::nat]\<rparr>" 2]
    GetItem_cases [of "\<lparr>size_rl = 3, tot = 7, items = [3, 4, 5, 6::nat]\<rparr>" 9]
  by simp

text \<open>
  Claim C2, as amended. Let a list be constructed with window \<open>S\<close>. If \<open>S \<ge> 0\<close>,
  every sequence of \<open>Add\<close> calls runs to its end. After every sequence of \<open>Add\<close>
  calls that has run to its end, \<open>tot\<close> is the number of items appended and the
  buffer holds exactly the most recent \<open>len(items)\<close> of them: \<open>GetItem\<close> at the
  global index \<open>tot - len(items) + j\<close> returns the item appended at that position.
  If \<open>S \<ge> 1\<close>, the buffer never holds more than \<open>2S\<close> items, the next \<open>Add\<close>
  compacts exactly when it holds \<open>2S\<close>, and the buffer that the compaction leaves,
  before the new item is appended, has a length in \<open>[S, 2S)\<close>. For \<open>S = 0\<close> every
  \<open>Add\<close> compacts, nothing is dropped and the interval is empty: the counterexample.
\<close>

theorem rolling_list_window:
  assumes "NewRollingList S = Inr r0"
  shows "(is_int64 S \<and> 0 \<le> S \<longrightarrow> (\<exists>r1. add_seq xs r0 = Inr r1)) \<and>
         (add_seq xs r0 = Inr r \<longrightarrow>
            size_rl r = S \<and> tot r = int (length xs) \<and> length (items r) \<le> length xs \<and>
            items r = drop (length xs - length (items r)) xs \<and>
            (\<forall>j<length (items r).
               GetItem r (tot r - int (length (items r)) + int j)
                 = Inr (xs ! (length xs - length (items r) + j))) \<and>
            (is_int64 S \<and> 1 \<le> S \<longrightarrow>
               int (length (items r)) \<le> 2 * S \<and>
               (\<exists>r'. Add_roll r = Inr (2 * S \<le> int (length (items r)), r') \<and>
                     (2 * S \<le> int (length (items r)) \<longrightarrow>
                        S \<le> int (length (items r')) \<and> int (length (items r')) < 2 * S))))"
proof (intro conjI impI)
  assume "is_int64 S \<and> 0 \<le> S"
  with assms have "rl_sized r0" by (simp add: new_sized)
  from add_seq_sized[OF this, of xs] show "\<exists>r1. add_seq xs r0 = Inr r1" by blast
next
  assume a: "add_seq xs r0 = Inr r"
  from add_seq_inv[OF new_list(3)[OF assms] a] new_list(1)[OF assms]
  have i: "rl_inv r xs" and s: "size_rl r = S" by simp_all
  from s show "size_rl r = S" .
  from i show "tot r = int (length xs)" "length (items r) \<le> length xs"
    "items r = drop (length xs - length (items r)) xs"
    by (simp_all add: rl_inv_def)
  from GetItem_window[OF i] show "\<forall>j<length (items r).
               GetItem r (tot r - int (length (items r)) + int j)
                 = Inr (xs ! (length xs - length (items r) + j))" by blast
  {
    assume h: "is_int64 S \<and> 1 \<le> S"
    with assms have z: "rl_sized r0" by (simp add: new_sized)
    from add_seq_sized[OF z, of xs] a have zr: "rl_sized r" by simp
    from h new_list(1)[OF assms] have "rl_bounded r0" by (simp add: rl_bounded_def)
    from add_seq_bounded[OF z this a] have b: "rl_bounded r" .
    then show le: "int (length (items r)) \<le> 2 * S" using s by (simp add: rl_bounded_def)
    let ?r' = "if 2 * S \<le> int (length (items r))
                then r\<lparr>items := drop (nat (size_rl r)) (items r)\<rparr> else r"
    have "Add_roll r = Inr (2 * S \<le> int (length (items r)), ?r')"
      using Add_roll_sized[OF zr] s by simp
    moreover have "2 * S \<le> int (length (items r)) \<longrightarrow>
                        S \<le> int (length (items ?r')) \<and> int (length (items ?r')) < 2 * S"
      using le h s by auto
    ultimately show "\<exists>r'. Add_roll r = Inr (2 * S \<le> int (length (items r)), r') \<and>
                     (2 * S \<le> int (length (items r)) \<longrightarrow>
                        S \<le> int (length (items r')) \<and> int (length (items r')) < 2 * S)"
      by blast
  }
qed

theorem rolling_list_window_witness:
  "NewRollingList 1 = Inr \<lparr>size_rl = 1, tot = 0, items = ([]::nat list)\<rparr> \<and>
   is_int64 1 \<and> (1::int) \<le> 1 \<and>
   add_seq [10, 20::nat] \<lparr>size_rl = 1, tot = 0, items = []\<rparr>
     = Inr \<lparr>size_rl = 1, tot = 2, items = [10, 20]\<rparr> \<and>
   GetItem \<lparr>size_rl = 1, tot = 2, items = [10, 20::nat]\<rparr> (2 - 2 + 1) = Inr ([10, 20] ! (2 - 2 + 1)) \<and>
   2 * 1 \<le> int (length [10, 20::nat]) \<and>
   Add_roll \<lparr>size_rl = 1, tot = 2, items = [10, 20::nat]\<rparr>
     = Inr (True, \<lparr>size_rl = 1, tot = 2, items = [20]\<rparr>) \<and>
   1 \<le> int (length [20::nat]) \<and> int (length [20::nat]) < 2 * 1"
  using rolling_list_window [of 1 "\<lparr>size_rl = 1, tot = 0, items = []\<rparr>" "[10, 20::nat]"
      "\<lparr>size_rl = 1, tot = 2, items = [10, 20]\<rparr>"]
  by (simp add: NewRollingList_def Add_def Add_roll_def Roll_def GetItem_def wrap64_def
        is_int64_def)

theorem rolling_list_window_counterexample:
  "NewRollingList 0 = Inr \<lparr>size_rl = 0, tot = 0, items = ([]::nat list)\<rparr> \<and>
   add_seq [7] \<lparr>size_rl = 0, tot = 0, items = ([]::nat list)\<rparr>
     = Inr \<lparr>size_rl = 0, tot = 1, items = [7]\<rparr> \<and>
   Add_roll \<lparr>size_rl = 0, tot = 1, items = [7::nat]\<rparr>
     = Inr (True, \<lparr>size_rl = 0, tot = 1, items = [7]\<rparr>) \<and>
   \<not> (0 \<le> int (length (items \<lparr>size_rl = 0, tot = 1, items = [7::nat]\<rparr>)) \<and>
      int (length (items \<lparr>size_rl = 0, tot = 1, items = [7::nat]\<rparr>)) < 2 * 0)"
  by (simp add: NewRollingList_def Roll_def Add_def Add_roll_def wrap64_def)

text \<open>
  Claim C7. With \<open>S = 3\<close> and the items \<open>0, ..., 6\<close> appended in order: the first
  six appends trigger no compaction, the seventh compacts the buffer
  \<open>[0, 1, 2, 3, 4, 5]\<close> to its newest three items and then appends, so exactly one
  compaction has occurred and \<open>tot = 7\<close>; \<open>GetItem(0)\<close> is "too late",
  \<open>GetItem(6)\<close> is the seventh item and \<open>GetItem(7)\<close> is "not found".
\<close>

theorem rolling_list_seven_items:
  "NewRollingList 3 = Inr \<lparr>size_rl = 3, tot = 0, items = ([]::int list)\<rparr> \<and>
   add_seq [0, 1, 2, 3, 4, 5::int] \<lparr>size_rl = 3, tot = 0, items = []\<rparr>
     = Inr \<lparr>size_rl = 3, tot = 6, items = [0, 1, 2, 3, 4, 5]\<rparr> \<and>
   roll_count [0, 1, 2, 3, 4, 5::int] \<lparr>size_rl = 3, tot = 0, items = []\<rparr> = 0 \<and>
   Roll \<lparr>size_rl = 3, tot = 6, items = [0, 1, 2, 3, 4, 5::int]\<rparr>
     = Inr \<lparr>size_rl = 3, tot = 6, items = [3, 4, 5]\<rparr> \<and>
   Add \<lparr>size_rl = 3, tot = 6, items = [0, 1, 2, 3, 4, 5::int]\<rparr> 6
     = Inr \<lparr>size_rl = 3, tot = 7, items = [3, 4, 5, 6]\<rparr> \<and>
   add_seq [0, 1, 2, 3, 4, 5, 6::int] \<lparr>size_rl = 3, tot = 0, items = []\<rparr>
     = Inr \<lparr>size_rl = 3, tot = 7, items = [3, 4, 5, 6]\<rparr> \<and>
   roll_count [0, 1, 2, 3, 4, 5, 6::int] \<lparr>size_rl = 3, tot = 0, items = []\<rparr> = 1 \<and>
   GetItem \<lparr>size_rl = 3, tot = 7, items = [3, 4, 5, 6::int]\<rparr> 0 = Inl ErrTooLate \<and>
   GetItem \<lparr>size_rl = 3, tot = 7, items = [3, 4, 5, 6::int]\<rparr> 6 = Inr 6 \<and>
   GetItem \<lparr>size_rl = 3, tot = 7, items = [3, 4, 5, 6::int]\<rparr> 7 = Inl ErrKeyNotFound"
  by (simp add: NewRollingList_def Add_def Add_roll_def Roll_def GetItem_def wrap64_def)

text \<open>
  Claim C10, as amended. \<open>Roll\<close> called on a list with fewer than \<open>size\<close> buffered
  items panics, and on every list whose size the constructor has accepted the panic is
  the slice expression out of bounds. \<open>Add\<close> only appends while \<open>len(items)\<close> is
  below the 64-bit product \<open>2 * size\<close>. On every list constructed with a size
  \<open>S \<ge> 0\<close> and then only appended to, \<open>Add\<close> never panics, it calls \<open>Roll\<close>
  exactly when \<open>len(items) \<ge> 2S\<close>, and the slice bounds \<open>0 \<le> S \<le> len(items)\<close>
  hold there. The restriction to \<open>S \<ge> 0\<close> is needed: for the least 64-bit integer
  the product wraps to 0, the list is constructed, and the first \<open>Add\<close> calls
  \<open>Roll\<close>, whose slice expression panics on the negative bound.
\<close>

theorem Roll_bounds:
  "(int (length (items r)) < size_rl r \<longrightarrow> isl (Roll r)) \<and>
   (int (length (items r)) < size_rl r \<and> \<not> wrap64 (2 * size_rl r) < 0 \<longrightarrow>
      Roll r = Inl SliceBoundsOutOfRange) \<and>
   (int (length (items r)) < wrap64 (2 * size_rl r) \<longrightarrow>
      Add r x = Inr (r\<lparr>items := items r @ [x], tot := tot r + 1\<rparr>)) \<and>
   (is_int64 S \<and> 0 \<le> S \<and> NewRollingList S = Inr r0 \<and> add_seq xs r0 = Inr r1 \<longrightarrow>
      size_rl r1 = S \<and> \<not> wrap64 (2 * S) < 0 \<and>
      (\<exists>r2. Add r1 y = Inr r2) \<and>
      (\<exists>r'. Add_roll r1 = Inr (2 * S \<le> int (length (items r1)), r')) \<and>
      (2 * S \<le> int (length (items r1)) \<longrightarrow>
         S \<le> int (length (items r1)) \<and>
         Roll r1 = Inr (r1\<lparr>items := drop (nat S) (items r1)\<rparr>)))"
proof (intro conjI impI)
  assume "int (length (items r)) < size_rl r"
  then show "isl (Roll r)" by (simp add: Roll_def)
next
  assume "int (length (items r)) < size_rl r \<and> \<not> wrap64 (2 * size_rl r) < 0"
  then show "Roll r = Inl SliceBoundsOutOfRange" by (simp add: Roll_def)
next
  assume "int (length (items r)) < wrap64 (2 * size_rl r)"
  then show "Add r x = Inr (r\<lparr>items := items r @ [x], tot := tot r + 1\<rparr>)"
    by (simp add: Add_def Add_roll_def)
next
  assume h: "is_int64 S \<and> 0 \<le> S \<and> NewRollingList S = Inr r0 \<and> add_seq xs r0 = Inr r1"
  then have n: "NewRollingList S = Inr r0" and a: "add_seq xs r0 = Inr r1"
    and S: "is_int64 S" "0 \<le> S" by simp_all
  from add_seq_inv[OF new_list(3)[OF n] a] new_list(1)[OF n]
  show s: "size_rl r1 = S" by simp
  from new_list(2)[OF n] show "\<not> wrap64 (2 * S) < 0" .
  from new_sized[OF n S] have "rl_sized r0" .
  from add_seq_sized[OF this, of xs] a have z: "rl_sized r1" by simp
  from Add_sized[OF z, of y] show "\<exists>r2. Add r1 y = Inr r2" by blast
  note ar = Add_roll_sized[OF z]
  from ar s show "\<exists>r'. Add_roll r1 = Inr (2 * S \<le> int (length (items r1)), r')" by simp
  {
    assume g: "2 * S \<le> int (length (items r1))"
    with S(2) show le: "S \<le> int (length (items r1))" by linarith
    from z have "wrap64 (2 * size_rl r1) = 2 * size_rl r1"
      by (simp only: rl_sized_def wrap64_double)
    with le s S(2) show "Roll r1 = Inr (r1\<lparr>items := drop (nat S) (items r1)\<rparr>)"
      by (simp add: Roll_def)
  }
qed

theorem Roll_bounds_witness:
  "int (length (items \<lparr>size_rl = 3, tot = 2, items = [7, 8::nat]\<rparr>))
     < size_rl \<lparr>size_rl = 3, tot = 2, items = [7, 8::nat]\<rparr> \<and>
   \<not> wrap64 (2 * size_rl \<lparr>size_rl = 3, tot = 2, items = [7, 8::nat]\<rparr>) < 0 \<and>
   Roll \<lparr>size_rl = 3, tot = 2, items = [7, 8::nat]\<rparr> = Inl SliceBoundsOutOfRange \<and>
   int (length (items \<lparr>size_rl = 3, tot = 2, items = [7, 8::nat]\<rparr>))
     < wrap64 (2 * size_rl \<lparr>size_rl = 3, tot = 2, items = [7, 8::nat]\<rparr>) \<and>
   Add \<lparr>size_rl = 3, tot = 2, items = [7, 8::nat]\<rparr> 9
     = Inr \<lparr>size_rl = 3, tot = 3, items = [7, 8, 9]\<rparr> \<and>
   is_int64 1 \<and> (0::int) \<le> 1 \<and>
   NewRollingList 1 = Inr \<lparr>size_rl = 1, tot = 0, items = ([]::nat list)\<rparr> \<and>
   add_seq [7, 8::nat] \<lparr>size_rl = 1, tot = 0, items = []\<rparr>
     = Inr \<lparr>size_rl = 1, tot = 2, items = [7, 8]\<rparr> \<and>
   Add \<lparr>size_rl = 1, tot = 2, items = [7, 8::nat]\<rparr> 9
     = Inr \<lparr>size_rl = 1, tot = 3, items = [8, 9]\<rparr> \<and>
   Add_roll \<lparr>size_rl = 1, tot = 2, items = [7, 8::nat]\<rparr>
     = Inr (True, \<lparr>size_rl = 1, tot = 2, items = [8]\<rparr>) \<and>
   Roll \<lparr>size_rl = 1, tot = 2, items = [7, 8::nat]\<rparr>
     = Inr \<lparr>size_rl = 1, tot = 2, items = [8]\<rparr>"
  using Roll_bounds [of "\<lparr>size_rl = 3, tot = 2, items = [7, 8::nat]\<rparr>" 9 1
      "\<lparr>size_rl = 1, tot = 0, items = []\<rparr>" "[7, 8]" "\<lparr>size_rl = 1, tot = 2, items = [7, 8]\<rparr>" 9]
  by (simp add: NewRollingList_def Add_def Add_roll_def Roll_def wrap64_def is_int64_def)

theorem Roll_bounds_counterexample:
  "is_int64 (- 9223372036854775808) \<and>
   NewRollingList (- 9223372036854775808)
     = Inr \<lparr>size_rl = - 9223372036854775808, tot = 0, items = ([]::nat list)\<rparr> \<and>
   add_seq [] \<lparr>size_rl = - 9223372036854775808, tot = 0, items = ([]::nat list)\<rparr>
     = Inr \<lparr>size_rl = - 9223372036854775808, tot = 0, items = []\<rparr> \<and>
   wrap64 (2 * size_rl \<lparr>size_rl = - 9223372036854775808, tot = 0, items = ([]::nat list)\<rparr>)
     \<le> int (length (items \<lparr>size_rl = - 9223372036854775808, tot = 0, items = ([]::nat list)\<rparr>)) \<and>
   Roll \<lparr>size_rl = - 9223372036854775808, tot = 0, items = ([]::nat list)\<rparr>
     = Inl SliceBoundsOutOfRange \<and>
   Add \<lparr>size_rl = - 9223372036854775808, tot = 0, items = ([]::nat list)\<rparr> 7
     = Inl SliceBoundsOutOfRange"
  by (simp add: NewRollingList_def Add_def Add_roll_def Roll_def wrap64_def is_int64_def)


section \<open>Properties of NetworkTransport\<close>

subsection \<open>The connection pool\<close>

lemma idle_returnConn_admit:
  assumes "\<not> IsShutdown n" "int (length (idle n (target c))) < maxPool n"
  shows "returnConn c n = n\<lparr>connPool := (connPool n)(target c \<mapsto> idle n (target c) @ [c])\<rparr>"
  using assms by (simp add: returnConn_def idle_def Let_def)

lemma idle_returnConn_reject:
  assumes "IsShutdown n \<or> maxPool n \<le> int (length (idle n (target c)))"
  shows "returnConn c n = n\<lparr>released := released n @ [c]\<rparr>"
  using assms by (auto simp: returnConn_def idle_def Let_def Release_def)

lemma getPooledConn_nonempty:
  assumes "idle n tgt \<noteq> []"
  shows "getPooledConn tgt n =
           (Some (last (idle n tgt)), n\<lparr>connPool := (connPool n)(tgt \<mapsto> butlast (idle n tgt))\<rparr>)"
  using assms by (auto simp: getPooledConn_def idle_def split: option.splits)

lemma getPooledConn_empty:
  assumes "idle n tgt = []"
  shows "getPooledConn tgt n = (None, n)"
  using assms by (auto simp: getPooledConn_def idle_def split: option.splits)

text \<open>
  Claim C6. \<open>returnConn\<close> appends the connection to the idle list of its target
  only when the transport is not shut down and that list is shorter than \<open>maxPool\<close>;
  otherwise the pool is unchanged and the connection is released (closed). It never
  touches another target's list. \<open>getPooledConn\<close> hands out the last connection of the
  list, so a connection that has just been admitted is the next one handed out, and the
  list is then what it was before. With no idle connection it returns nil.
\<close>

theorem pool_admission_lifo:
  "(\<not> IsShutdown n \<and> int (length (idle n (target c))) < maxPool n \<longrightarrow>
      idle (returnConn c n) (target c) = idle n (target c) @ [c] \<and>
      released (returnConn c n) = released n \<and>
      fst (getPooledConn (target c) (returnConn c n)) = Some c \<and>
      idle (snd (getPooledConn (target c) (returnConn c n))) (target c) = idle n (target c)) \<and>
   (IsShutdown n \<or> maxPool n \<le> int (length (idle n (target c))) \<longrightarrow>
      connPool (returnConn c n) = connPool n \<and>
      released (returnConn c n) = released n @ [c]) \<and>
   (tgt \<noteq> target c \<longrightarrow> idle (returnConn c n) tgt = idle n tgt) \<and>
   (idle n tgt \<noteq> [] \<longrightarrow>
      fst (getPooledConn tgt n) = Some (last (idle n tgt)) \<and>
      idle (snd (getPooledConn tgt n)) tgt = butlast (idle n tgt)) \<and>
   (idle n tgt = [] \<longrightarrow> getPooledConn tgt n = (None, n))"
proof (intro conjI impI)
  assume a: "\<not> IsShutdown n \<and> int (length (idle n (target c))) < maxPool n"
  then have r: "returnConn c n = n\<lparr>connPool := (connPool n)(target c \<mapsto> idle n (target c) @ [c])\<rparr>"
    by (simp add: idle_returnConn_admit)
  then show i: "idle (returnConn c n) (target c) = idle n (target c) @ [c]"
    by (simp add: idle_def)
  from r show "released (returnConn c n) = released n" by simp
  from i have ne: "idle (returnConn c n) (target c) \<noteq> []" by simp
  from getPooledConn_nonempty[OF ne] i
  show "fst (getPooledConn (target c) (returnConn c n)) = Some c"
    and "idle (snd (getPooledConn (target c) (returnConn c n))) (target c) = idle n (target c)"
    by (simp_all add: idle_def)
next
  assume "IsShutdown n \<or> maxPool n \<le> int (length (idle n (target c)))"
  then have r: "returnConn c n = n\<lparr>released := released n @ [c]\<rparr>"
    by (rule idle_returnConn_reject)
  then show "connPool (returnConn c n) = connPool n"
    and "released (returnConn c n) = released n @ [c]" by simp_all
next
  assume "tgt \<noteq> target c"
  then show "idle (returnConn c n) tgt = idle n tgt"
    by (simp add: returnConn_def idle_def Let_def Release_def)
next
  assume ne: "idle n tgt \<noteq> []"
  from getPooledConn_nonempty[OF ne]
  show "fst (getPooledConn tgt n) = Some (last (idle n tgt))"
    and "idle (snd (getPooledConn tgt n)) tgt = butlast (idle n tgt)"
    by (simp_all add: idle_def)
next
  assume "idle n tgt = []"
  then show "getPooledConn tgt n = (None, n)" by (rule getPooledConn_empty)
qed

theorem pool_admission_lifo_witness:
  "\<not> IsShutdown ((NewNetworkTransport 1 0)\<lparr>connPool := Map.empty\<rparr>) \<and>
   returnConn \<lparr>target = ''a'', conn = 1\<rparr> (NewNetworkTransport 1 0)
     = (NewNetworkTransport 1 0)\<lparr>connPool := [''a'' \<mapsto> [\<lparr>target = ''a'', conn = 1\<rparr>]]\<rparr> \<and>
   idle ((NewNetworkTransport 1 0)\<lparr>connPool := [''a'' \<mapsto> [\<lparr>target = ''a'', conn = 1\<rparr>]]\<rparr>) ''a''
     = [\<lparr>target = ''a'', conn = 1\<rparr>] \<and>
   released (returnConn \<lparr>target = ''a'', conn = 2\<rparr>
      ((NewNetworkTransport 1 0)\<lparr>connPool := [''a'' \<mapsto> [\<lparr>target = ''a'', conn = 1\<rparr>]]\<rparr>))
     = [\<lparr>target = ''a'', conn = 2\<rparr>] \<and>
   idle (returnConn \<lparr>target = ''a'', conn = 2\<rparr>
      ((NewNetworkTransport 1 0)\<lparr>connPool := [''a'' \<mapsto> [\<lparr>target = ''a'', conn = 1\<rparr>]]\<rparr>)) ''b'' = [] \<and>
   fst (getPooledConn ''a''
      ((NewNetworkTransport 1 0)\<lparr>connPool := [''a'' \<mapsto> [\<lparr>target = ''a'', conn = 1\<rparr>]]\<rparr>))
     = Some \<lparr>target = ''a'', conn = 1\<rparr> \<and>
   getPooledConn ''b''
      ((NewNetworkTransport 1 0)\<lparr>connPool := [''a'' \<mapsto> [\<lparr>target = ''a'', conn = 1\<rparr>]]\<rparr>)
     = (None, (NewNetworkTransport 1 0)\<lparr>connPool := [''a'' \<mapsto> [\<lparr>target = ''a'', conn = 1\<rparr>]]\<rparr>)"
  using pool_admission_lifo [of "NewNetworkTransport 1 0" "\<lparr>target = ''a'', conn = 1\<rparr>" "''b''"]
    pool_admission_lifo [of "(NewNetworkTransport 1 0)\<lparr>connPool := [''a'' \<mapsto> [\<lparr>target = ''a'', conn = 1\<rparr>]]\<rparr>"
      "\<lparr>target = ''a'', conn = 2\<rparr>" "''b''"]
    pool_admission_lifo [of "(NewNetworkTransport 1 0)\<lparr>connPool := [''a'' \<mapsto> [\<lparr>target = ''a'', conn = 1\<rparr>]]\<rparr>"
      "\<lparr>target = ''a'', conn = 2\<rparr>" "''a''"]
  by (simp add: NewNetworkTransport_def returnConn_def getPooledConn_def idle_def IsShutdown_def Let_def
        Release_def)

subsection \<open>Close\<close>

lemma Close_first:
  "\<not> shutdown n \<Longrightarrow> \<not> shutdownCh n \<Longrightarrow>
   Close n = Inr (None, n\<lparr>shutdownCh := True, stream_closes := Suc (stream_closes n), shutdown := True\<rparr>)"
  by (simp add: Close_def)

lemma Close_again: "shutdown n \<Longrightarrow> Close n = Inr (None, n)"
  by (simp add: Close_def)

lemma flags_agree_kept:
  "flags_agree (NewNetworkTransport mp tmo)"
  "flags_agree n \<Longrightarrow> Close n = Inr (e, n1) \<Longrightarrow> flags_agree n1"
  "flags_agree n \<Longrightarrow> flags_agree (snd (getPooledConn tgt n))"
  "flags_agree n \<Longrightarrow> flags_agree (returnConn c n)"
  "flags_agree n \<Longrightarrow> flags_agree (Release c n)"
  by (auto simp: flags_agree_def NewNetworkTransport_def Close_def getPooledConn_def
        returnConn_def Release_def Let_def split: if_splits option.splits)

text \<open>
  Claim C8. On a transport whose flag and channel agree (every transport made by
  \<open>NewNetworkTransport\<close>, see \<open>flags_agree_kept\<close>), \<open>Close\<close> does not panic and
  returns nil. The first call sets the shutdown flag, closes the shutdown channel and
  closes the stream layer once; a call on a transport that is already shut down changes
  nothing, so a second \<open>Close\<close> returns the state the first one left.
\<close>

theorem Close_idempotent:
  assumes "flags_agree n"
  shows "\<exists>n1. Close n = Inr (None, n1) \<and> Close n1 = Inr (None, n1) \<and>
           shutdown n1 \<and> shutdownCh n1 \<and> IsShutdown n1 \<and> flags_agree n1 \<and>
           (\<not> shutdown n \<longrightarrow>
              n1 = n\<lparr>shutdownCh := True, stream_closes := Suc (stream_closes n),
                     shutdown := True\<rparr>) \<and>
           (shutdown n \<longrightarrow> n1 = n)"
proof (cases "shutdown n")
  case True
  with assms show ?thesis
    by (simp add: Close_again flags_agree_def IsShutdown_def)
next
  case False
  with assms have "\<not> shutdownCh n" by (simp add: flags_agree_def)
  with False show ?thesis
    by (simp add: Close_first Close_again flags_agree_def IsShutdown_def)
qed

theorem Close_idempotent_witness:
  "flags_agree (NewNetworkTransport 3 1000) \<and>
   Close (NewNetworkTransport 3 1000) =
     Inr (None, (NewNetworkTransport 3 1000)\<lparr>shutdownCh := True, stream_closes := 1, shutdown := True\<rparr>) \<and>
   Close ((NewNetworkTransport 3 1000)\<lparr>shutdownCh := True, stream_closes := 1, shutdown := True\<rparr>) =
     Inr (None, (NewNetworkTransport 3 1000)\<lparr>shutdownCh := True, stream_closes := 1, shutdown := True\<rparr>) \<and>
   stream_closes ((NewNetworkTransport 3 1000)\<lparr>shutdownCh := True, stream_closes := 1, shutdown := True\<rparr>) = 1"
  using Close_idempotent [of "NewNetworkTransport 3 1000"]
  by (simp add: NewNetworkTransport_def Close_def flags_agree_def)

subsection \<open>Outbound calls\<close>

lemma getConn_Inl:
  assumes "getConn env tgt n = (Inl e, n1)"
  shows "n1 = n \<and> dial env = Inl e"
  using assms
  by (auto simp: getConn_def getPooledConn_def split: option.splits if_splits sum.splits prod.splits)

lemma genericRPC_unfold:
  assumes "getConn env tgt n = (Inr c, n1)"
  shows "genericRPC env tgt n =
     (case sendRPC env c (with_deadline c n1) of
        (Some e, n3) \<Rightarrow> (Some e, None, n3)
      | (None, n3) \<Rightarrow>
          (case decodeResponse env c n3 of
             (canReturn, err, resp, n4) \<Rightarrow>
               (err, resp, if canReturn then returnConn c n4 else n4)))"
  using assms by (simp add: genericRPC_def with_deadline_def Let_def)

lemma sendRPC_ok:
  "write_byte env = None \<Longrightarrow> encode env = None \<Longrightarrow> flush env = None \<Longrightarrow>
   sendRPC env c n = (None, n)"
  by (simp add: sendRPC_def)

lemma sendRPC_fail:
  "write_byte env \<noteq> None \<or> encode env \<noteq> None \<or> flush env \<noteq> None \<Longrightarrow>
   \<exists>e. sendRPC env c n = (Some e, Release c n)"
  by (auto simp: sendRPC_def split: option.splits)

lemma decodeResponse_ok:
  "decode_string (incoming env) = (Inr s, ws) \<Longrightarrow> decode_value ws = (Inr v, ws') \<Longrightarrow>
   decodeResponse env c n = (True, (if s \<noteq> [] then Some (Errorf s) else None), Some v, n)"
  by (simp add: decodeResponse_def)

lemma decodeResponse_fail:
  "isl (fst (decode_string (incoming env))) \<or>
   isl (fst (decode_value (snd (decode_string (incoming env))))) \<Longrightarrow>
   \<exists>e. decodeResponse env c n = (False, Some e, None, Release c n)"
  by (auto simp: decodeResponse_def isl_def split: prod.splits sum.splits)

lemma with_deadline_fields:
  "connPool (with_deadline c n) = connPool n"
  "released (with_deadline c n) = released n"
  "maxPool (with_deadline c n) = maxPool n"
  "shutdownCh (with_deadline c n) = shutdownCh n"
  by (simp_all add: with_deadline_def)

lemma genericRPC_failed:
  assumes g: "getConn env tgt n = (Inr c, n1)" and f: "\<not> round_trip_ok env"
  shows "\<exists>e. genericRPC env tgt n = (Some e, None, Release c (with_deadline c n1))"
proof (cases "write_byte env \<noteq> None \<or> encode env \<noteq> None \<or> flush env \<noteq> None")
  case True
  from sendRPC_fail[OF True, of c "with_deadline c n1"] show ?thesis
    by (auto simp: genericRPC_unfold[OF g])
next
  case False
  then have s: "sendRPC env c (with_deadline c n1) = (None, with_deadline c n1)"
    by (simp add: sendRPC_ok)
  from False f have "isl (fst (decode_string (incoming env))) \<or>
     isl (fst (decode_value (snd (decode_string (incoming env)))))"
    by (auto simp: round_trip_ok_def)
  from decodeResponse_fail[OF this, of c "with_deadline c n1"] s show ?thesis
    by (auto simp: genericRPC_unfold[OF g])
qed

lemma genericRPC_completed:
  assumes g: "getConn env tgt n = (Inr c, n1)"
    and w: "write_byte env = None" "encode env = None" "flush env = None"
    and d: "decode_string (incoming env) = (Inr s, ws)" "decode_value ws = (Inr v, ws')"
  shows "genericRPC env tgt n =
     ((if s \<noteq> [] then Some (Errorf s) else None), Some v, returnConn c (with_deadline c n1))"
  using sendRPC_ok[OF w] decodeResponse_ok[OF d]
  by (simp add: genericRPC_unfold[OF g])

lemma round_trip_ok_decodes:
  assumes "round_trip_ok env"
  obtains s ws v ws' where "write_byte env = None" "encode env = None" "flush env = None"
    "decode_string (incoming env) = (Inr s, ws)" "decode_value ws = (Inr v, ws')"
proof -
  obtain a ws where ds: "decode_string (incoming env) = (a, ws)" by (cases "decode_string (incoming env)")
  obtain b ws' where dv: "decode_value ws = (b, ws')" by (cases "decode_value ws")
  from assms ds dv obtain s v where "a = Inr s" "b = Inr v"
    by (cases a; cases b) (auto simp: round_trip_ok_def)
  with assms ds dv that show ?thesis by (auto simp: round_trip_ok_def)
qed

text \<open>
  Claim C4. If the dial fails, \<open>genericRPC\<close> returns the dial error and leaves the
  state as it was: there is no connection to pool or to close. Once a connection is
  held, if the write of the type byte, the encoding of the request, the flush, the
  decoding of the error string or the decoding of the response fails, the call returns
  an error, the connection is released (closed) and the pool is what it was when the
  connection was acquired. Only when all five succeed is the connection handed to
  \<open>returnConn\<close>; hence the pool changes only after a complete round trip.
\<close>

theorem genericRPC_failure_closes_conn:
  "(getConn env tgt n = (Inl e, n1) \<longrightarrow>
      genericRPC env tgt n = (Some e, None, n)) \<and>
   (getConn env tgt n = (Inr c, n1) \<and> \<not> round_trip_ok env \<longrightarrow>
      (\<exists>e'. fst (genericRPC env tgt n) = Some e') \<and>
      connPool (snd (snd (genericRPC env tgt n))) = connPool n1 \<and>
      released (snd (snd (genericRPC env tgt n))) = released n1 @ [c]) \<and>
   (getConn env tgt n = (Inr c, n1) \<and> round_trip_ok env \<longrightarrow>
      snd (snd (genericRPC env tgt n)) = returnConn c (with_deadline c n1)) \<and>
   (getConn env tgt n = (Inr c, n1) \<and>
    connPool (snd (snd (genericRPC env tgt n))) \<noteq> connPool n1 \<longrightarrow> round_trip_ok env)"
proof (intro conjI impI)
  assume a: "getConn env tgt n = (Inl e, n1)"
  then have "n1 = n" by (simp add: getConn_Inl)
  with a show "genericRPC env tgt n = (Some e, None, n)" by (simp add: genericRPC_def)
next
  assume a: "getConn env tgt n = (Inr c, n1) \<and> \<not> round_trip_ok env"
  then obtain e' where r: "genericRPC env tgt n = (Some e', None, Release c (with_deadline c n1))"
    using genericRPC_failed by blast
  then show "\<exists>e'. fst (genericRPC env tgt n) = Some e'" by simp
  from r show "connPool (snd (snd (genericRPC env tgt n))) = connPool n1"
    by (simp add: Release_def with_deadline_fields)
  from r show "released (snd (snd (genericRPC env tgt n))) = released n1 @ [c]"
    by (simp add: Release_def with_deadline_fields)
next
  assume a: "getConn env tgt n = (Inr c, n1) \<and> round_trip_ok env"
  then have g: "getConn env tgt n = (Inr c, n1)" and ok: "round_trip_ok env" by simp_all
  from ok obtain s ws v ws' where "write_byte env = None" "encode env = None" "flush env = None"
    "decode_string (incoming env) = (Inr s, ws)" "decode_value ws = (Inr v, ws')"
    by (rule round_trip_ok_decodes)
  from genericRPC_completed[OF g this]
  show "snd (snd (genericRPC env tgt n)) = returnConn c (with_deadline c n1)" by simp
next
  assume a: "getConn env tgt n = (Inr c, n1) \<and>
    connPool (snd (snd (genericRPC env tgt n))) \<noteq> connPool n1"
  show "round_trip_ok env"
  proof (rule ccontr)
    assume "\<not> round_trip_ok env"
    with a obtain e' where "genericRPC env tgt n = (Some e', None, Release c (with_deadline c n1))"
      using genericRPC_failed by blast
    with a show False by (simp add: Release_def with_deadline_fields)
  qed
qed

theorem genericRPC_failure_closes_conn_witness:
  "getConn \<lparr>dial = Inl (IOError ''refused''), write_byte = None, encode = None, flush = None,
            incoming = ([]::nat wire list)\<rparr> ''peer'' (NewNetworkTransport 3 0)
     = (Inl (IOError ''refused''), NewNetworkTransport 3 0) \<and>
   genericRPC \<lparr>dial = Inl (IOError ''refused''), write_byte = None, encode = None, flush = None,
            incoming = ([]::nat wire list)\<rparr> ''peer'' (NewNetworkTransport 3 0)
     = (Some (IOError ''refused''), None, NewNetworkTransport 3 0) \<and>
   getConn \<lparr>dial = Inr 1, write_byte = None, encode = None, flush = Some (IOError ''broken pipe''),
            incoming = [WString [], WValue (5::nat)]\<rparr> ''peer'' (NewNetworkTransport 3 0)
     = (Inr \<lparr>target = ''peer'', conn = 1\<rparr>, NewNetworkTransport 3 0) \<and>
   \<not> round_trip_ok \<lparr>dial = Inr 1, write_byte = None, encode = None,
            flush = Some (IOError ''broken pipe''), incoming = [WString [], WValue (5::nat)]\<rparr> \<and>
   genericRPC \<lparr>dial = Inr 1, write_byte = None, encode = None, flush = Some (IOError ''broken pipe''),
            incoming = [WString [], WValue (5::nat)]\<rparr> ''peer'' (NewNetworkTransport 3 0)
     = (Some (IOError ''broken pipe''), None,
        (NewNetworkTransport 3 0)\<lparr>released := [\<lparr>target = ''peer'', conn = 1\<rparr>]\<rparr>) \<and>
   round_trip_ok \<lparr>dial = Inr 1, write_byte = None, encode = None, flush = None,
            incoming = [WString [], WValue (5::nat)]\<rparr> \<and>
   genericRPC \<lparr>dial = Inr 1, write_byte = None, encode = None, flush = None,
            incoming = [WString [], WValue (5::nat)]\<rparr> ''peer'' (NewNetworkTransport 3 0)
     = (None, Some 5,
        (NewNetworkTransport 3 0)\<lparr>connPool := [''peer'' \<mapsto> [\<lparr>target = ''peer'', conn = 1\<rparr>]]\<rparr>)"
  using genericRPC_failure_closes_conn [of
      "\<lparr>dial = Inl (IOError ''refused''), write_byte = None, encode = None, flush = None,
            incoming = ([]::nat wire list)\<rparr>" "''peer''" "NewNetworkTransport 3 0"
      "IOError ''refused''" "NewNetworkTransport 3 0" "\<lparr>target = ''peer'', conn = 1\<rparr>"]
    genericRPC_failure_closes_conn [of
      "\<lparr>dial = Inr 1, write_byte = None, encode = None, flush = Some (IOError ''broken pipe''),
            incoming = [WString [], WValue (5::nat)]\<rparr>" "''peer''" "NewNetworkTransport 3 0"
      "IOError ''refused''" "NewNetworkTransport 3 0" "\<lparr>target = ''peer'', conn = 1\<rparr>"]
    genericRPC_failure_closes_conn [of
      "\<lparr>dial = Inr 1, write_byte = None, encode = None, flush = None,
            incoming = [WString [], WValue (5::nat)]\<rparr>" "''peer''" "NewNetworkTransport 3 0"
      "IOError ''refused''" "NewNetworkTransport 3 0" "\<lparr>target = ''peer'', conn = 1\<rparr>"]
  by (simp add: NewNetworkTransport_def genericRPC_def getConn_def
        getPooledConn_def sendRPC_def decodeResponse_def returnConn_def IsShutdown_def Let_def
        Release_def round_trip_ok_def with_deadline_def)

text \<open>
  Claim C5. When the round trip completes and the decoded error string \<open>s\<close> is not
  empty, \<open>genericRPC\<close> returns the error \<open>fmt.Errorf(s)\<close> together with the decoded
  response, and the connection is handed to \<open>returnConn\<close> exactly as after a call
  without error: on a transport that is not shut down and has room for the target it
  becomes the newest idle connection and is not released.
\<close>

theorem genericRPC_application_error:
  "getConn env tgt n = (Inr c, n1) \<and>
   write_byte env = None \<and> encode env = None \<and> flush env = None \<and>
   decode_string (incoming env) = (Inr s, ws) \<and> decode_value ws = (Inr v, ws') \<and> s \<noteq> [] \<longrightarrow>
     genericRPC env tgt n = (Some (Errorf s), Some v, returnConn c (with_deadline c n1)) \<and>
     (\<not> IsShutdown n1 \<and> int (length (idle n1 (target c))) < maxPool n1 \<longrightarrow>
        idle (snd (snd (genericRPC env tgt n))) (target c) = idle n1 (target c) @ [c] \<and>
        released (snd (snd (genericRPC env tgt n))) = released n1)"
proof (intro impI conjI)
  assume a: "getConn env tgt n = (Inr c, n1) \<and>
   write_byte env = None \<and> encode env = None \<and> flush env = None \<and>
   decode_string (incoming env) = (Inr s, ws) \<and> decode_value ws = (Inr v, ws') \<and> s \<noteq> []"
  then have "getConn env tgt n = (Inr c, n1)" "write_byte env = None" "encode env = None"
    "flush env = None" "decode_string (incoming env) = (Inr s, ws)"
    "decode_value ws = (Inr v, ws')"
    by simp_all
  then have r: "genericRPC env tgt n =
     ((if s \<noteq> [] then Some (Errorf s) else None), Some v, returnConn c (with_deadline c n1))"
    by (rule genericRPC_completed)
  with a show g: "genericRPC env tgt n = (Some (Errorf s), Some v, returnConn c (with_deadline c n1))"
    by simp
  assume b: "\<not> IsShutdown n1 \<and> int (length (idle n1 (target c))) < maxPool n1"
  then have "\<not> IsShutdown (with_deadline c n1)"
    "int (length (idle (with_deadline c n1) (target c))) < maxPool (with_deadline c n1)"
    by (simp_all add: IsShutdown_def idle_def with_deadline_fields)
  from idle_returnConn_admit[OF this] g
  show "idle (snd (snd (genericRPC env tgt n))) (target c) = idle n1 (target c) @ [c]"
    and "released (snd (snd (genericRPC env tgt n))) = released n1"
    by (simp_all add: idle_def with_deadline_fields)
qed

theorem genericRPC_application_error_witness:
  "getConn \<lparr>dial = Inr 1, write_byte = None, encode = None, flush = None,
            incoming = [WString ''boom'', WValue (5::nat)]\<rparr> ''peer'' (NewNetworkTransport 3 0)
     = (Inr \<lparr>target = ''peer'', conn = 1\<rparr>, NewNetworkTransport 3 0) \<and>
   decode_string [WString ''boom'', WValue (5::nat)] = (Inr ''boom'', [WValue 5]) \<and>
   decode_value [WValue (5::nat)] = (Inr 5, []) \<and>
   ''boom'' \<noteq> [] \<and>
   \<not> IsShutdown (NewNetworkTransport 3 0) \<and>
   int (length (idle (NewNetworkTransport 3 0) ''peer'')) < maxPool (NewNetworkTransport 3 0) \<and>
   genericRPC \<lparr>dial = Inr 1, write_byte = None, encode = None, flush = None,
            incoming = [WString ''boom'', WValue (5::nat)]\<rparr> ''peer'' (NewNetworkTransport 3 0)
     = (Some (Errorf ''boom''), Some 5,
        (NewNetworkTransport 3 0)\<lparr>connPool := [''peer'' \<mapsto> [\<lparr>target = ''peer'', conn = 1\<rparr>]]\<rparr>)"
  using genericRPC_application_error [of
      "\<lparr>dial = Inr 1, write_byte = None, encode = None, flush = None,
            incoming = [WString ''boom'', WValue (5::nat)]\<rparr>" "''peer''" "NewNetworkTransport 3 0"
      "\<lparr>target = ''peer'', conn = 1\<rparr>" "NewNetworkTransport 3 0" "''boom''" "[WValue 5]" 5 "[]"]
  by (simp add: NewNetworkTransport_def genericRPC_def getConn_def
        getPooledConn_def sendRPC_def decodeResponse_def returnConn_def IsShutdown_def Let_def
        Release_def idle_def with_deadline_def)

text \<open>
  Claim C3. Once \<open>Close\<close> has completed, a call of \<open>Sync\<close> is to fail with an
  error: the declaration of \<open>ErrTransportShutdown\<close> says that it is returned when
  operations on a transport are invoked after it has been terminated, and
  \<open>handleCommand\<close> returns it as soon as the shutdown channel is closed.
  \<open>genericRPC\<close> never reads the shutdown state. Evaluated on a transport that has
  been closed, with a dial and a round trip that succeed, \<open>Sync\<close> returns nil and the
  response; only \<open>returnConn\<close> notices the shutdown and closes the connection
  instead of pooling it.
\<close>

theorem Sync_after_Close_returns_nil:
  "Close (NewNetworkTransport 3 1000)
     = Inr (None, (NewNetworkTransport 3 1000)\<lparr>shutdownCh := True, stream_closes := 1, shutdown := True\<rparr>) \<and>
   IsShutdown ((NewNetworkTransport 3 1000)\<lparr>shutdownCh := True, stream_closes := 1, shutdown := True\<rparr>) \<and>
   Sync \<lparr>dial = Inr 1, write_byte = None, encode = None, flush = None,
         incoming = [WString [], WValue (5::nat)]\<rparr> ''peer''
        ((NewNetworkTransport 3 1000)\<lparr>shutdownCh := True, stream_closes := 1, shutdown := True\<rparr>)
     = (None, Some 5,
        (NewNetworkTransport 3 1000)\<lparr>shutdownCh := True, stream_closes := 1, shutdown := True,
           deadlines := [\<lparr>target = ''peer'', conn = 1\<rparr>],
           released := [\<lparr>target = ''peer'', conn = 1\<rparr>]\<rparr>) \<and>
   fst (Sync \<lparr>dial = Inr 1, write_byte = None, encode = None, flush = None,
         incoming = [WString [], WValue (5::nat)]\<rparr> ''peer''
        ((NewNetworkTransport 3 1000)\<lparr>shutdownCh := True, stream_closes := 1, shutdown := True\<rparr>))
     = None"
  by (simp add: NewNetworkTransport_def Close_def Sync_def genericRPC_def getConn_def
        getPooledConn_def sendRPC_def decodeResponse_def returnConn_def IsShutdown_def Let_def
        Release_def)

subsection \<open>The order of the reply\<close>

lemma handleCommand_reply:
  assumes "read_byte env = Inr rpcSync" "decode_req env = Inr req" "dispatched env"
    "reply env = Some resp"
  shows "handleCommand env =
     (case encode_err env of
        Some e \<Rightarrow> (Some e, [], Some req)
      | None \<Rightarrow>
          (case encode_resp env of
             Some e \<Rightarrow> (Some e, [WString (case Error resp of None \<Rightarrow> [] | Some m \<Rightarrow> m)], Some req)
           | None \<Rightarrow>
               (None, [WString (case Error resp of None \<Rightarrow> [] | Some m \<Rightarrow> m),
                       WValue (Response resp)], Some req)))"
  using assms by (simp add: handleCommand_def Let_def)

lemma handleCommand_no_error:
  assumes "handleCommand env = (None, out, q)"
  shows "\<exists>req resp. read_byte env = Inr rpcSync \<and> decode_req env = Inr req \<and> dispatched env \<and>
           reply env = Some resp \<and> encode_err env = None \<and> encode_resp env = None \<and>
           q = Some req \<and>
           out = [WString (case Error resp of None \<Rightarrow> [] | Some m \<Rightarrow> m), WValue (Response resp)]"
  using assms
  by (auto simp: handleCommand_def Let_def split: sum.splits if_splits option.splits)

lemma decodeResponse_pair:
  "incoming renv = WString s # WValue v # rest \<Longrightarrow>
   decodeResponse renv c n = (True, (if s \<noteq> [] then Some (Errorf s) else None), Some v, n)"
  by (simp add: decodeResponse_def)

text \<open>
  Claim C9. When an inbound command receives a reply, \<open>handleCommand\<close> encodes the
  error string first (the empty string when the reply has no error) and the response
  value second, whether or not the reply carries an error; if the first encoding fails
  nothing is sent, if the second fails only the string has been sent. Whenever
  \<open>handleCommand\<close> returns nil it has encoded exactly these two values.
  \<open>decodeResponse\<close> reads a string first and a response value second: it accepts what
  the handler wrote and recovers the reply, and it fails on a stream that starts with a
  response value or that carries a second string where the value should be.
\<close>

theorem reply_error_then_value:
  "(read_byte env = Inr rpcSync \<and> decode_req env = Inr req \<and> dispatched env \<and>
    reply env = Some resp \<longrightarrow>
      (encode_err env = None \<and> encode_resp env = None \<longrightarrow>
         handleCommand env =
           (None, [WString (case Error resp of None \<Rightarrow> [] | Some m \<Rightarrow> m),
                   WValue (Response resp)], Some req)) \<and>
      (encode_err env = None \<and> encode_resp env = Some e \<longrightarrow>
         handleCommand env =
           (Some e, [WString (case Error resp of None \<Rightarrow> [] | Some m \<Rightarrow> m)], Some req)) \<and>
      (encode_err env = Some e \<longrightarrow> handleCommand env = (Some e, [], Some req))) \<and>
   (handleCommand env = (None, out, q) \<and> reply env = Some resp \<longrightarrow>
      out = [WString (case Error resp of None \<Rightarrow> [] | Some m \<Rightarrow> m), WValue (Response resp)]) \<and>
   (incoming renv = WString s # WValue v # rest \<longrightarrow>
      decodeResponse renv c n =
        (True, (if s \<noteq> [] then Some (Errorf s) else None), Some v, n)) \<and>
   (incoming renv = WValue v # rest \<longrightarrow>
      decodeResponse renv c n = (False, Some (GobTypeError), None, Release c n)) \<and>
   (incoming renv = WString s # WString s' # rest \<longrightarrow>
      decodeResponse renv c n = (False, Some (GobTypeError), None, Release c n)) \<and>
   (handleCommand env = (None, out, q) \<and> reply env = Some resp \<and> incoming renv = out \<longrightarrow>
      decodeResponse renv c n =
        (True,
         (case Error resp of None \<Rightarrow> None | Some m \<Rightarrow> if m \<noteq> [] then Some (Errorf m) else None),
         Some (Response resp), n))"
proof (intro conjI impI)
  assume a: "read_byte env = Inr rpcSync \<and> decode_req env = Inr req \<and> dispatched env \<and>
    reply env = Some resp"
  then have h: "read_byte env = Inr rpcSync" "decode_req env = Inr req" "dispatched env"
    "reply env = Some resp" by simp_all
  note r = handleCommand_reply[OF h]
  {
    assume "encode_err env = None \<and> encode_resp env = None"
    with r show "handleCommand env =
           (None, [WString (case Error resp of None \<Rightarrow> [] | Some m \<Rightarrow> m),
                   WValue (Response resp)], Some req)" by simp
  }
  {
    assume "encode_err env = None \<and> encode_resp env = Some e"
    with r show "handleCommand env =
           (Some e, [WString (case Error resp of None \<Rightarrow> [] | Some m \<Rightarrow> m)], Some req)" by simp
  }
  {
    assume "encode_err env = Some e"
    with r show "handleCommand env = (Some e, [], Some req)" by simp
  }
next
  assume "handleCommand env = (None, out, q) \<and> reply env = Some resp"
  then show "out = [WString (case Error resp of None \<Rightarrow> [] | Some m \<Rightarrow> m), WValue (Response resp)]"
    using handleCommand_no_error[of env out q] by auto
next
  assume "incoming renv = WString s # WValue v # rest"
  then show "decodeResponse renv c n =
        (True, (if s \<noteq> [] then Some (Errorf s) else None), Some v, n)"
    by (rule decodeResponse_pair)
next
  assume "incoming renv = WValue v # rest"
  then show "decodeResponse renv c n = (False, Some (GobTypeError), None, Release c n)"
    by (simp add: decodeResponse_def)
next
  assume "incoming renv = WString s # WString s' # rest"
  then show "decodeResponse renv c n = (False, Some (GobTypeError), None, Release c n)"
    by (simp add: decodeResponse_def)
next
  assume a: "handleCommand env = (None, out, q) \<and> reply env = Some resp \<and> incoming renv = out"
  then have "incoming renv =
     WString (case Error resp of None \<Rightarrow> [] | Some m \<Rightarrow> m) # WValue (Response resp) # []"
    using handleCommand_no_error[of env out q] by auto
  from decodeResponse_pair[OF this, of c n]
  show "decodeResponse renv c n =
        (True,
         (case Error resp of None \<Rightarrow> None | Some m \<Rightarrow> if m \<noteq> [] then Some (Errorf m) else None),
         Some (Response resp), n)"
    by (simp split: option.splits)
qed

theorem reply_error_then_value_witness:
  "handleCommand \<lparr>read_byte = Inr 0, decode_req = Inr (1::nat), dispatched = True,
       reply = Some \<lparr>Response = (5::nat), Error = Some ''boom''\<rparr>,
       encode_err = None, encode_resp = None\<rparr>
     = (None, [WString ''boom'', WValue 5], Some 1) \<and>
   handleCommand \<lparr>read_byte = Inr 0, decode_req = Inr (1::nat), dispatched = True,
       reply = Some \<lparr>Response = (5::nat), Error = None\<rparr>,
       encode_err = None, encode_resp = None\<rparr>
     = (None, [WString [], WValue 5], Some 1) \<and>
   handleCommand \<lparr>read_byte = Inr 0, decode_req = Inr (1::nat), dispatched = True,
       reply = Some \<lparr>Response = (5::nat), Error = None\<rparr>,
       encode_err = None, encode_resp = Some (IOError ''reset'')\<rparr>
     = (Some (IOError ''reset''), [WString []], Some 1) \<and>
   handleCommand \<lparr>read_byte = Inr 0, decode_req = Inr (1::nat), dispatched = True,
       reply = Some \<lparr>Response = (5::nat), Error = None\<rparr>,
       encode_err = Some (IOError ''reset''), encode_resp = None\<rparr>
     = (Some (IOError ''reset''), [], Some 1) \<and>
   decodeResponse \<lparr>dial = Inr 1, write_byte = None, encode = None, flush = None,
            incoming = [WString ''boom'', WValue (5::nat)]\<rparr> \<lparr>target = ''peer'', conn = 1\<rparr>
        (NewNetworkTransport 3 0)
     = (True, Some (Errorf ''boom''), Some 5, NewNetworkTransport 3 0) \<and>
   decodeResponse \<lparr>dial = Inr 1, write_byte = None, encode = None, flush = None,
            incoming = [WValue (5::nat), WString ''boom'']\<rparr> \<lparr>target = ''peer'', conn = 1\<rparr>
        (NewNetworkTransport 3 0)
     = (False, Some (GobTypeError), None,
        (NewNetworkTransport 3 0)\<lparr>released := [\<lparr>target = ''peer'', conn = 1\<rparr>]\<rparr>) \<and>
   decodeResponse \<lparr>dial = Inr 1, write_byte = None, encode = None, flush = None,
            incoming = [WString ''boom'', WString ''bang'', WValue (5::nat)]\<rparr>
        \<lparr>target = ''peer'', conn = 1\<rparr> (NewNetworkTransport 3 0)
     = (False, Some (GobTypeError), None,
        (NewNetworkTransport 3 0)\<lparr>released := [\<lparr>target = ''peer'', conn = 1\<rparr>]\<rparr>)"
  using reply_error_then_value [of
      "\<lparr>read_byte = Inr 0, decode_req = Inr (1::nat), dispatched = True,
       reply = Some \<lparr>Response = (5::nat), Error = Some ''boom''\<rparr>,
       encode_err = None, encode_resp = None\<rparr>" 1 "\<lparr>Response = (5::nat), Error = Some ''boom''\<rparr>"
      "IOError ''reset''" "[WString ''boom'', WValue 5]" "Some 1"
      "\<lparr>dial = Inr 1, write_byte = None, encode = None, flush = None,
            incoming = [WString ''boom'', WValue (5::nat)]\<rparr>" "''boom''" 5 "[]"
      "\<lparr>target = ''peer'', conn = 1\<rparr>" "NewNetworkTransport 3 0" "''bang''"]
    reply_error_then_value [of
      "\<lparr>read_byte = Inr 0, decode_req = Inr (1::nat), dispatched = True,
       reply = Some \<lparr>Response = (5::nat), Error = None\<rparr>,
       encode_err = None, encode_resp = Some (IOError ''reset'')\<rparr>" 1
      "\<lparr>Response = (5::nat), Error = None\<rparr>"
      "IOError ''reset''" "[WString []]" "Some 1"
      "\<lparr>dial = Inr 1, write_byte = None, encode = None, flush = None,
            incoming = [WValue (5::nat), WString ''boom'']\<rparr>" "''boom''" 5 "[WString ''boom'']"
      "\<lparr>target = ''peer'', conn = 1\<rparr>" "NewNetworkTransport 3 0" "''bang''"]
    reply_error_then_value [of
      "\<lparr>read_byte = Inr 0, decode_req = Inr (1::nat), dispatched = True,
       reply = Some \<lparr>Response = (5::nat), Error = None\<rparr>,
       encode_err = Some (IOError ''reset''), encode_resp = None\<rparr>" 1
      "\<lparr>Response = (5::nat), Error = None\<rparr>"
      "IOError ''reset''" "[]" "Some 1"
      "\<lparr>dial = Inr 1, write_byte = None, encode = None, flush = None,
            incoming = [WString ''boom'', WString ''bang'', WValue (5::nat)]\<rparr>" "''boom''" 5
      "[WValue 5]" "\<lparr>target = ''peer'', conn = 1\<rparr>" "NewNetworkTransport 3 0" "''bang''"]
  by (simp add: handleCommand_def decodeResponse_def rpcSync_def NewNetworkTransport_def Release_def)

end
